theory Spec2Isabelle
  imports Main
begin

section \<open>Go strings\<close>

text \<open>
  A Go string is a sequence of bytes, modelled as \<open>string\<close>. The character classes of
  the program's regular expressions (\<open>[A-Z]\<close>, \<open>[a-z]\<close>, \<open>[^"]\<close>) are ASCII ranges, so they
  are decided byte by byte. \<open>strings.ToLower\<close>, \<open>strings.TrimSpace\<close> and \<open>ast.IsExported\<close>
  also know the non-ASCII letters and spaces of Unicode; the model covers their ASCII
  behaviour and leaves every other byte as it is.
\<close>

definition upper_letters :: string where
  "upper_letters = ''ABCDEFGHIJKLMNOPQRSTUVWXYZ''"

definition lower_letters :: string where
  "lower_letters = ''abcdefghijklmnopqrstuvwxyz''"

definition digits :: string where
  "digits = ''0123456789''"

definition isUpper :: "char \<Rightarrow> bool" where
  "isUpper c = (c \<in> set upper_letters)"

definition isLower :: "char \<Rightarrow> bool" where
  "isLower c = (c \<in> set lower_letters)"

definition toLowerChar :: "char \<Rightarrow> char" where
  "toLowerChar c = (case map_of (zip upper_letters lower_letters) c of Some l \<Rightarrow> l | None \<Rightarrow> c)"

definition ToLower :: "string \<Rightarrow> string" where
  "ToLower s = map toLowerChar s"

definition HasPrefix :: "string \<Rightarrow> string \<Rightarrow> bool" where
  "HasPrefix s p = (take (length p) s = p)"

definition HasSuffix :: "string \<Rightarrow> string \<Rightarrow> bool" where
  "HasSuffix s p = (length p \<le> length s \<and> drop (length s - length p) s = p)"

definition TrimPrefix :: "string \<Rightarrow> string \<Rightarrow> string" where
  "TrimPrefix s p = (if HasPrefix s p then drop (length p) s else s)"

definition TrimSuffix :: "string \<Rightarrow> string \<Rightarrow> string" where
  "TrimSuffix s p = (if HasSuffix s p then take (length s - length p) s else s)"

text \<open>\<open>strings.Trim(s, cutset)\<close> removes every leading and trailing byte of the cutset.\<close>

definition Trim :: "string \<Rightarrow> string \<Rightarrow> string" where
  "Trim s cutset =
     rev (dropWhile (\<lambda>c. c \<in> set cutset) (rev (dropWhile (\<lambda>c. c \<in> set cutset) s)))"

definition isSpace :: "char \<Rightarrow> bool" where
  "isSpace c = (c \<in> set [CHR '' '', CHR 0x09, CHR 0x0A, CHR 0x0B, CHR 0x0C, CHR 0x0D])"

definition TrimSpace :: "string \<Rightarrow> string" where
  "TrimSpace s = rev (dropWhile isSpace (rev (dropWhile isSpace s)))"

fun Contains :: "string \<Rightarrow> string \<Rightarrow> bool" where
  "Contains [] sub = (sub = [])"
| "Contains (c # cs) sub = (HasPrefix (c # cs) sub \<or> Contains cs sub)"

text \<open>
  \<open>strings.Split(s, sep)\<close> for a separator of one byte, the only way the program calls
  it: the pieces between the separators, one more than there are separators.
\<close>

fun Split :: "string \<Rightarrow> char \<Rightarrow> string list" where
  "Split [] sep = [[]]"
| "Split (c # cs) sep =
     (if c = sep then [] # Split cs sep
      else (case Split cs sep of p # ps \<Rightarrow> (c # p) # ps | [] \<Rightarrow> [[c]]))"

fun Join :: "string list \<Rightarrow> string \<Rightarrow> string" where
  "Join [] sep = []"
| "Join [p] sep = p"
| "Join (p # q # ps) sep = p @ sep @ Join (q # ps) sep"

section \<open>The regular expressions of the parser\<close>

subsection \<open>\<open>([A-Z]+)([A-Z][a-z])\<close>\<close>

text \<open>
  A match anchored at the head of \<open>s\<close>. The greedy \<open>[A-Z]+\<close> first takes the whole run of
  upper-case letters and gives letters back one at a time until \<open>[A-Z][a-z]\<close> matches what
  follows; \<open>re1_try k s\<close> tries the group lengths \<open>k, k - 1, \<dots>, 1\<close> in that order. The
  result is the two groups and the text after the match.
\<close>

definition upper_lower_at :: "string \<Rightarrow> bool" where
  "upper_lower_at s = (case s of a # b # _ \<Rightarrow> isUpper a \<and> isLower b | _ \<Rightarrow> False)"

fun re1_try :: "nat \<Rightarrow> string \<Rightarrow> (string \<times> string \<times> string) option" where
  "re1_try 0 s = None"
| "re1_try (Suc k) s =
     (if upper_lower_at (drop (Suc k) s)
      then Some (take (Suc k) s, take 2 (drop (Suc k) s), drop (Suc k + 2) s)
      else re1_try k s)"

definition re1_match :: "string \<Rightarrow> (string \<times> string \<times> string) option" where
  "re1_match s = re1_try (length (takeWhile isUpper s)) s"

subsection \<open>\<open>([a-z])([A-Z])\<close>\<close>

definition re2_match :: "string \<Rightarrow> (string \<times> string \<times> string) option" where
  "re2_match s =
     (case s of a # b # rest \<Rightarrow> if isLower a \<and> isUpper b then Some ([a], [b], rest) else None
      | _ \<Rightarrow> None)"

subsection \<open>\<open>ReplaceAllString(s, "${1}-${2}")\<close>\<close>

text \<open>
  The matches are found from left to right and do not overlap: where the expression
  matches, the match is replaced by the first group, a hyphen and the second group, and
  the search goes on after the match; where it does not, the byte is copied and the search
  goes on at the next byte. A match is never empty, so the search ends.
\<close>

lemma re1_try_Some:
  "re1_try k s = Some (g1, g2, rest) \<Longrightarrow>
   \<exists>j. 0 < j \<and> j \<le> k \<and> upper_lower_at (drop j s) \<and>
       g1 = take j s \<and> g2 = take 2 (drop j s) \<and> rest = drop (j + 2) s"
proof (induction k)
  case 0
  then show ?case by simp
next
  case (Suc k)
  show ?case
  proof (cases "upper_lower_at (drop (Suc k) s)")
    case True
    with Suc.prems show ?thesis by (intro exI [of _ "Suc k"]) auto
  next
    case False
    with Suc.prems have "re1_try k s = Some (g1, g2, rest)" by simp
    from Suc.IH [OF this] show ?thesis by (auto intro: le_SucI)
  qed
qed

lemma upper_lower_at_length: "upper_lower_at s \<Longrightarrow> 2 \<le> length s"
  by (auto simp: upper_lower_at_def split: list.splits)

lemma re1_match_shorter:
  assumes "re1_match s = Some (g1, g2, rest)"
  shows "length rest < length s"
proof -
  from assms obtain j where j: "upper_lower_at (drop j s)" "rest = drop (j + 2) s"
    unfolding re1_match_def by (blast dest: re1_try_Some)
  from upper_lower_at_length [OF j(1)] have "j + 2 \<le> length s" by simp
  with j(2) show ?thesis by simp
qed

lemma re2_match_shorter: "re2_match s = Some (g1, g2, rest) \<Longrightarrow> length rest < length s"
  by (auto simp: re2_match_def split: list.splits if_splits)

function ReplaceAllString_re1 :: "string \<Rightarrow> string" where
  "ReplaceAllString_re1 [] = []"
| "ReplaceAllString_re1 (c # cs) =
     (case re1_match (c # cs) of
        Some (g1, g2, rest) \<Rightarrow> g1 @ ''-'' @ g2 @ ReplaceAllString_re1 rest
      | None \<Rightarrow> c # ReplaceAllString_re1 cs)"
  by pat_completeness auto
termination
  by (relation "measure length") (auto dest: re1_match_shorter)

function ReplaceAllString_re2 :: "string \<Rightarrow> string" where
  "ReplaceAllString_re2 [] = []"
| "ReplaceAllString_re2 (c # cs) =
     (case re2_match (c # cs) of
        Some (g1, g2, rest) \<Rightarrow> g1 @ ''-'' @ g2 @ ReplaceAllString_re2 rest
      | None \<Rightarrow> c # ReplaceAllString_re2 cs)"
  by pat_completeness auto
termination
  by (relation "measure length") (auto dest: re2_match_shorter)

section \<open>Flag names\<close>

definition toKebabCase :: "string \<Rightarrow> string" where
  "toKebabCase s =
     (let result = ReplaceAllString_re1 s;
          result = ReplaceAllString_re2 result
      in ToLower result)"

definition deriveFlagName :: "string \<Rightarrow> string \<Rightarrow> string" where
  "deriveFlagName fieldName jsonTag =
     (if jsonTag \<noteq> [] then toKebabCase jsonTag else toKebabCase fieldName)"



section \<open>The syntax tree of \<open>go/ast\<close>\<close>

text \<open>
  The parser of the Go distribution (\<open>go/parser\<close>) turns the source text into a syntax
  tree; the program walks that tree. The tree is modelled with the node types and fields
  the program reads. A comment group is the list of the texts of its comments, and a
  missing group (\<open>nil\<close>) is \<open>None\<close>. A declaration \<open>type T struct {\<dots>}\<close> on its own has its
  documentation in \<open>GenDecl.Doc\<close>; in a parenthesised group \<open>type ( \<dots> )\<close> the comment
  before the keyword is \<open>GenDecl.Doc\<close> and the comment before each member is that member's
  \<open>TypeSpec.Doc\<close>.
\<close>

type_synonym CommentGroup = "string list"

datatype Token = token_IMPORT | token_CONST | token_TYPE | token_VAR

datatype Expr =
    BadExpr
  | Ident string
  | Ellipsis "Expr option"
  | FuncLit
  | ParenExpr Expr
  | SelectorExpr Expr string
  | IndexExpr Expr Expr
  | IndexListExpr Expr "Expr list"
  | StarExpr Expr
  | ArrayType "Expr option" Expr
  | StructType "Field list"
  | FuncType "Field list" "Field list"
  | InterfaceType "Field list"
  | MapType Expr Expr
  | ChanType Expr
and Field =
    Field (Doc: "CommentGroup option") (Names: "string list") (Type: Expr)
          (Tag: "string option") (Comment: "CommentGroup option")

datatype Spec =
    ImportSpec
  | ValueSpec
  | TypeSpec "CommentGroup option" string Expr

datatype Decl =
    BadDecl
  | FuncDecl
  | GenDecl "CommentGroup option" Token "Spec list"

record File =
  Name :: string
  Decls :: "Decl list"

text \<open>The name \<open>%T\<close> prints for a node.\<close>

fun type_name :: "Expr \<Rightarrow> string" where
  "type_name BadExpr = ''*ast.BadExpr''"
| "type_name (Ident _) = ''*ast.Ident''"
| "type_name (Ellipsis _) = ''*ast.Ellipsis''"
| "type_name FuncLit = ''*ast.FuncLit''"
| "type_name (ParenExpr _) = ''*ast.ParenExpr''"
| "type_name (SelectorExpr _ _) = ''*ast.SelectorExpr''"
| "type_name (IndexExpr _ _) = ''*ast.IndexExpr''"
| "type_name (IndexListExpr _ _) = ''*ast.IndexListExpr''"
| "type_name (StarExpr _) = ''*ast.StarExpr''"
| "type_name (ArrayType _ _) = ''*ast.ArrayType''"
| "type_name (StructType _) = ''*ast.StructType''"
| "type_name (FuncType _ _) = ''*ast.FuncType''"
| "type_name (InterfaceType _) = ''*ast.InterfaceType''"
| "type_name (MapType _ _) = ''*ast.MapType''"
| "type_name (ChanType _) = ''*ast.ChanType''"

definition IsExported :: "string \<Rightarrow> bool" where
  "IsExported name = (case name of [] \<Rightarrow> False | c # _ \<Rightarrow> isUpper c)"

section \<open>Package \<open>types\<close>\<close>

text \<open>The values a \<open>DefaultValue interface{}\<close> holds, with their dynamic type.\<close>

datatype Value =
    Nil
  | StringValue string
  | IntValue int
  | BoolValue bool
  | StringSlice "string list"

record FieldInfo =
  Name :: string
  Type :: string
  JSONTag :: string
  FlagName :: string
  Description :: string
  DefaultValue :: Value
  DefaultValueCode :: string
  Required :: bool
  ShortFlag :: string
  FlagMethod :: string

record StructInfo =
  Name :: string
  PackageName :: string
  Fields :: "FieldInfo list"
  Imports :: "string list"

definition SupportedTypes :: "(string \<times> string) list" where
  "SupportedTypes =
     [(''string'', ''StringVar''),
      (''int'', ''IntVar''),
      (''int32'', ''Int32Var''),
      (''int64'', ''Int64Var''),
      (''uint'', ''UintVar''),
      (''uint32'', ''Uint32Var''),
      (''uint64'', ''Uint64Var''),
      (''bool'', ''BoolVar''),
      (''float32'', ''Float32Var''),
      (''float64'', ''Float64Var''),
      (''[]string'', ''StringSliceVar''),
      (''[]int'', ''IntSliceVar''),
      (''time.Duration'', ''DurationVar'')]"

definition GetFlagMethod :: "string \<Rightarrow> string \<times> bool" where
  "GetFlagMethod fieldType =
     (case map_of SupportedTypes fieldType of
        Some method \<Rightarrow> (method, True)
      | None \<Rightarrow> ([], False))"

section \<open>Errors\<close>

text \<open>
  An error is the chain \<open>fmt.Errorf\<close> builds with \<open>%w\<close>; \<open>Error\<close> is its message.
  \<open>SyntaxError\<close> stands for whatever \<open>go/parser\<close> reports.
\<close>

datatype error =
    SyntaxError string
  | UnsupportedType string
  | FailedParseType string error
  | FailedParseField string error
  | FailedParseStruct string error
  | FailedParseFile string error
  | FailedParseInput error
  | NoStructsFound string
  | FailedGenerate string error
  | FailedWrite error


section \<open>\<open>strconv\<close> and \<open>fmt\<close>\<close>

text \<open>
  \<open>strconv.Atoi\<close>: an optional sign and then decimal digits, at least one; the value must
  fit the type \<open>int\<close>, taken to be 64 bits wide. \<open>None\<close> is the error return.
\<close>

definition digit_value :: "char \<Rightarrow> nat option" where
  "digit_value c =
     (if c \<in> set digits then Some (length (takeWhile (\<lambda>d. d \<noteq> c) digits)) else None)"

fun parse_digits :: "string \<Rightarrow> nat \<Rightarrow> nat option" where
  "parse_digits [] n = Some n"
| "parse_digits (c # cs) n =
     (case digit_value c of None \<Rightarrow> None | Some d \<Rightarrow> parse_digits cs (n * 10 + d))"

definition Atoi :: "string \<Rightarrow> int option" where
  "Atoi s =
     (let neg = (case s of c # _ \<Rightarrow> c = CHR ''-'' | [] \<Rightarrow> False);
          ds = (case s of c # r \<Rightarrow> if c = CHR ''-'' \<or> c = CHR ''+'' then r else s | [] \<Rightarrow> s)
      in if ds = [] then None
         else (case parse_digits ds 0 of
                 None \<Rightarrow> None
               | Some n \<Rightarrow>
                   let v = (if neg then - int n else int n)
                   in if - (2 ^ 63) \<le> v \<and> v \<le> 2 ^ 63 - 1 then Some v else None))"

definition ParseBool :: "string \<Rightarrow> bool option" where
  "ParseBool str =
     (if str \<in> set [''1'', ''t'', ''T'', ''TRUE'', ''true'', ''True''] then Some True
      else if str \<in> set [''0'', ''f'', ''F'', ''FALSE'', ''false'', ''False''] then Some False
      else None)"

text \<open>The decimal text of an integer, as \<open>%v\<close> prints it.\<close>

function show_nat :: "nat \<Rightarrow> string" where
  "show_nat n = (if n < 10 then [digits ! n] else show_nat (n div 10) @ [digits ! (n mod 10)])"
  by pat_completeness auto
termination
  by (relation "measure id") auto

declare show_nat.simps [simp del]

definition show_int :: "int \<Rightarrow> string" where
  "show_int i = (if i < 0 then ''-'' @ show_nat (nat (- i)) else show_nat (nat i))"

text \<open>\<open>fmt.Sprintf("%v", value)\<close> and \<open>fmt.Sprintf("%s", value)\<close> for the values above.\<close>

fun Sprint_v :: "Value \<Rightarrow> string" where
  "Sprint_v Nil = ''<nil>''"
| "Sprint_v (StringValue s) = s"
| "Sprint_v (IntValue i) = show_int i"
| "Sprint_v (BoolValue b) = (if b then ''true'' else ''false'')"
| "Sprint_v (StringSlice xs) = ''['' @ Join xs '' '' @ '']''"

fun Sprint_s :: "Value \<Rightarrow> string" where
  "Sprint_s Nil = ''%!s(<nil>)''"
| "Sprint_s (StringValue s) = s"
| "Sprint_s (IntValue i) = ''%!s(int='' @ show_int i @ '')''"
| "Sprint_s (BoolValue b) = ''%!s(bool='' @ (if b then ''true'' else ''false'') @ '')''"
| "Sprint_s (StringSlice xs) = ''['' @ Join xs '' '' @ '']''"

section \<open>Package \<open>parser\<close>\<close>

subsection \<open>Types\<close>

text \<open>
  Every function of the parser that returns a value and an error returns the pair here,
  with \<open>None\<close> for the \<open>nil\<close> error.
\<close>

fun parseType :: "Expr \<Rightarrow> string \<times> error option" where
  "parseType (Ident name) = (name, None)"
| "parseType (SelectorExpr x sel) =
     (case parseType x of
        (pkg, Some err) \<Rightarrow> ([], Some err)
      | (pkg, None) \<Rightarrow> (pkg @ ''.'' @ sel, None))"
| "parseType (ArrayType len elt) =
     (case parseType elt of
        (elemType, Some err) \<Rightarrow> ([], Some err)
      | (elemType, None) \<Rightarrow> (''[]'' @ elemType, None))"
| "parseType expr = ([], Some (UnsupportedType (type_name expr)))"

subsection \<open>Struct tags\<close>

text \<open>
  \<open>regexp.MustCompile(`key:"([^"]*)"`).FindStringSubmatch(tag)\<close> for \<open>key\<close> one of \<open>json\<close> and
  \<open>default\<close>: the leftmost place where \<open>key:"\<close> is followed, after bytes other than the
  double quote, by a double quote. The result is the match and its group, or the empty
  list (\<open>nil\<close>) when there is no match.
\<close>

definition dquote :: char where
  "dquote = CHR 0x22"

definition tag_match :: "string \<Rightarrow> string \<Rightarrow> string list option" where
  "tag_match key s =
     (let pre = key @ [CHR '':'', dquote]
      in if HasPrefix s pre
         then (let rest = drop (length pre) s;
                   g = takeWhile (\<lambda>c. c \<noteq> dquote) rest
               in if length g < length rest then Some [pre @ g @ [dquote], g] else None)
         else None)"

fun FindStringSubmatch :: "string \<Rightarrow> string \<Rightarrow> string list" where
  "FindStringSubmatch key [] = (case tag_match key [] of Some m \<Rightarrow> m | None \<Rightarrow> [])"
| "FindStringSubmatch key (c # cs) =
     (case tag_match key (c # cs) of Some m \<Rightarrow> m | None \<Rightarrow> FindStringSubmatch key cs)"

definition extractJSONTag :: "string \<Rightarrow> string" where
  "extractJSONTag tag =
     (let matches = FindStringSubmatch ''json'' tag
      in if length matches > 1
         then (let parts = Split (matches ! 1) (CHR '','')
               in if hd parts \<noteq> [] then hd parts else [])
         else [])"

definition parseDefaultValue :: "string \<Rightarrow> string \<Rightarrow> Value" where
  "parseDefaultValue v fieldType =
     (if fieldType = ''string'' then StringValue v
      else if fieldType \<in> set [''int'', ''int32'', ''int64'']
        then (case Atoi v of Some i \<Rightarrow> IntValue i | None \<Rightarrow> StringValue v)
      else if fieldType = ''bool''
        then (case ParseBool v of Some b \<Rightarrow> BoolValue b | None \<Rightarrow> StringValue v)
      else if fieldType = ''[]string''
        then (if v \<noteq> [] then StringSlice (Split v (CHR '','')) else StringSlice [])
      else if fieldType = ''time.Duration'' then StringValue v
      else StringValue v)"

definition extractDefaultFromTag :: "string \<Rightarrow> string \<Rightarrow> Value" where
  "extractDefaultFromTag tag fieldType =
     (let matches = FindStringSubmatch ''default'' tag
      in if length matches > 1
         then (let defaultStr = matches ! 1 in parseDefaultValue defaultStr fieldType)
         else Nil)"

subsection \<open>Descriptions\<close>

text \<open>The loop over the documentation comments, with the description built so far.\<close>

fun docComments :: "string list \<Rightarrow> string \<Rightarrow> string" where
  "docComments [] description = description"
| "docComments (c # cs) description =
     (let text = TrimPrefix c ''//'';
          text = TrimPrefix text ''/*'';
          text = TrimSuffix text ''*/'';
          text = TrimSpace text
      in if HasPrefix text ''+'' then docComments cs description
         else if description = [] then docComments cs text
         else docComments cs (description @ '' '' @ text))"

definition parseFieldComment :: "CommentGroup option \<Rightarrow> CommentGroup option \<Rightarrow> string" where
  "parseFieldComment comment doc =
     (let description = (case doc of None \<Rightarrow> [] | Some cs \<Rightarrow> docComments cs [])
      in if description = []
         then (case comment of
                 None \<Rightarrow> description
               | Some [] \<Rightarrow> description
               | Some (c # _) \<Rightarrow> TrimSpace (TrimPrefix c ''//''))
         else description)"

subsection \<open>Default-value literals\<close>

definition getZeroValue :: "string \<Rightarrow> string" where
  "getZeroValue fieldType =
     (if fieldType = ''string'' then [dquote, dquote]
      else if fieldType \<in> set [''int'', ''int32'', ''int64'', ''uint'', ''uint32'', ''uint64'',
                                ''float32'', ''float64''] then ''0''
      else if fieldType = ''bool'' then ''false''
      else if fieldType \<in> set [''[]string'', ''[]int''] then fieldType @ ''{}''
      else if fieldType = ''time.Duration'' then ''0''
      else [dquote, dquote])"

definition quoted :: "string \<Rightarrow> string" where
  "quoted s = [dquote] @ s @ [dquote]"

definition formatDefaultValueCode :: "Value \<Rightarrow> string \<Rightarrow> string" where
  "formatDefaultValueCode v fieldType =
     (if v = Nil then getZeroValue fieldType
      else if fieldType = ''string'' then quoted (Sprint_s v)
      else if fieldType = ''[]string''
        then (case v of
                StringSlice slice \<Rightarrow> ''[]string{'' @ Join (map quoted slice) '', '' @ ''}''
              | _ \<Rightarrow> ''[]string{}'')
      else if fieldType = ''time.Duration''
        then (case v of
                StringValue str \<Rightarrow> TrimSuffix str ''s'' @ ''*time.Second''
              | _ \<Rightarrow> ''0'')
      else Sprint_v v)"

subsection \<open>Fields\<close>

definition parseField :: "string \<Rightarrow> Field \<Rightarrow> FieldInfo \<times> error option" where
  "parseField name field =
     (let fieldInfo = \<lparr>FieldInfo.Name = name, Type = [], JSONTag = [], FlagName = [],
                        Description = [], DefaultValue = Nil, DefaultValueCode = [],
                        Required = False, ShortFlag = [], FlagMethod = []\<rparr>
      in case parseType (Field.Type field) of
           (fieldType, Some err) \<Rightarrow> (fieldInfo, Some (FailedParseType name err))
         | (fieldType, None) \<Rightarrow>
             (let fieldInfo = fieldInfo\<lparr>Type := fieldType\<rparr>;
                  fieldInfo =
                    (case Tag field of
                       Some v \<Rightarrow>
                         (let tag = Trim v ''`'';
                              fieldInfo = fieldInfo\<lparr>JSONTag := extractJSONTag tag\<rparr>;
                              fieldInfo = fieldInfo\<lparr>FlagName :=
                                            deriveFlagName name (JSONTag fieldInfo)\<rparr>
                          in fieldInfo\<lparr>DefaultValue := extractDefaultFromTag tag fieldType\<rparr>)
                     | None \<Rightarrow> fieldInfo\<lparr>FlagName := deriveFlagName name []\<rparr>)
              in (fieldInfo\<lparr>Description := parseFieldComment (Comment field) (Doc field)\<rparr>,
                  None)))"

subsection \<open>Structs\<close>

text \<open>
  The loop over the names of one field declaration, and the loop over the field
  declarations of the struct, with the descriptors and the import set built so far.
  An error ends both loops at once. The argument \<open>structType\<close> of \<open>parseStruct\<close> is the
  list of the field declarations of the struct type (\<open>structType.Fields.List\<close>). On an
  error \<open>parseStruct\<close> returns the descriptors built so far with the error; the import
  set, at most the one key \<open>time\<close>, is copied to the result only at the end.
\<close>

fun parseNames ::
  "Field \<Rightarrow> string list \<Rightarrow> FieldInfo list \<Rightarrow> string list \<Rightarrow>
   (FieldInfo list \<times> string list) \<times> error option" where
  "parseNames field [] infos imports = ((infos, imports), None)"
| "parseNames field (fieldName # names) infos imports =
     (if \<not> IsExported fieldName then parseNames field names infos imports
      else (case parseField fieldName field of
              (fieldInfo, Some err) \<Rightarrow> ((infos, imports), Some (FailedParseField fieldName err))
            | (fieldInfo, None) \<Rightarrow>
                (let imports = (if FieldInfo.Type fieldInfo = ''time.Duration''
                                then List.insert ''time'' imports else imports);
                     fieldInfo =
                       (case GetFlagMethod (FieldInfo.Type fieldInfo) of
                          (method, True) \<Rightarrow>
                            fieldInfo\<lparr>FlagMethod := method,
                                      DefaultValueCode :=
                                        formatDefaultValueCode (DefaultValue fieldInfo)
                                          (FieldInfo.Type fieldInfo)\<rparr>
                        | (method, False) \<Rightarrow> fieldInfo)
                 in parseNames field names (infos @ [fieldInfo]) imports)))"

fun parseFields ::
  "Field list \<Rightarrow> FieldInfo list \<Rightarrow> string list \<Rightarrow>
   (FieldInfo list \<times> string list) \<times> error option" where
  "parseFields [] infos imports = ((infos, imports), None)"
| "parseFields (field # rest) infos imports =
     (if length (Names field) = 0 then parseFields rest infos imports
      else (case parseNames field (Names field) infos imports of
              (state, Some err) \<Rightarrow> (state, Some err)
            | ((infos, imports), None) \<Rightarrow> parseFields rest infos imports))"

definition parseStruct :: "string \<Rightarrow> Field list \<Rightarrow> string \<Rightarrow> StructInfo \<times> error option" where
  "parseStruct name structType packageName =
     (case parseFields structType [] [] of
        ((infos, imports), Some err) \<Rightarrow>
          (\<lparr>StructInfo.Name = name, PackageName = packageName, Fields = infos, Imports = []\<rparr>,
           Some err)
      | ((infos, imports), None) \<Rightarrow>
          (\<lparr>StructInfo.Name = name, PackageName = packageName, Fields = infos,
            Imports = imports\<rparr>, None))"

subsection \<open>Files\<close>

definition hasAnnotation :: "CommentGroup option \<Rightarrow> bool" where
  "hasAnnotation commentGroup =
     (case commentGroup of
        None \<Rightarrow> False
      | Some comments \<Rightarrow> list_ex (\<lambda>text. Contains text ''+flags-gen'') comments)"

text \<open>
  The loop over the specs of one declaration and the loop over the declarations of the
  file, with the descriptors collected so far. On an error \<open>ParseFile\<close> returns \<open>nil\<close>
  and the error.
\<close>

fun parseSpecs ::
  "CommentGroup option \<Rightarrow> string \<Rightarrow> Spec list \<Rightarrow> StructInfo list \<Rightarrow>
   StructInfo list \<times> error option" where
  "parseSpecs doc pkg [] structs = (structs, None)"
| "parseSpecs doc pkg (spec # specs) structs =
     (case spec of
        TypeSpec specDoc name (StructType structType) \<Rightarrow>
          (if hasAnnotation doc
           then (case parseStruct name structType pkg of
                   (structInfo, Some err) \<Rightarrow> ([], Some (FailedParseStruct name err))
                 | (structInfo, None) \<Rightarrow> parseSpecs doc pkg specs (structs @ [structInfo]))
           else parseSpecs doc pkg specs structs)
      | _ \<Rightarrow> parseSpecs doc pkg specs structs)"

fun parseDecls :: "string \<Rightarrow> Decl list \<Rightarrow> StructInfo list \<Rightarrow> StructInfo list \<times> error option" where
  "parseDecls pkg [] structs = (structs, None)"
| "parseDecls pkg (decl # decls) structs =
     (case decl of
        GenDecl doc token_TYPE specs \<Rightarrow>
          (case parseSpecs doc pkg specs structs of
             (structs', Some err) \<Rightarrow> ([], Some err)
           | (structs', None) \<Rightarrow> parseDecls pkg decls structs')
      | _ \<Rightarrow> parseDecls pkg decls structs)"

text \<open>
  \<open>src\<close> is what \<open>go/parser\<close> returns for the file of that name: a syntax error, or the
  tree of a well-formed file.
\<close>

definition ParseFile :: "string \<Rightarrow> error + File \<Rightarrow> StructInfo list \<times> error option" where
  "ParseFile filename src =
     (case src of
        Inl err \<Rightarrow> ([], Some (FailedParseFile filename err))
      | Inr file \<Rightarrow> parseDecls (File.Name file) (Decls file) [])"

section \<open>What the loops compute\<close>

text \<open>
  Auxiliary notions for stating what the loops of \<open>parseStruct\<close> and \<open>ParseFile\<close> compute.
  \<open>descriptor name field\<close> is the descriptor the inner loop appends for an exported name
  of a field declaration: the result of \<open>parseField\<close> with the flag method and the
  default-value literal set. A field declaration is \<open>rejected\<close> when it has an exported
  name and its type does not resolve; this is when the loop stops with an error.
\<close>

definition with_flag_method :: "FieldInfo \<Rightarrow> FieldInfo" where
  "with_flag_method fieldInfo =
     (case GetFlagMethod (FieldInfo.Type fieldInfo) of
        (method, True) \<Rightarrow>
          fieldInfo\<lparr>FlagMethod := method,
                    DefaultValueCode :=
                      formatDefaultValueCode (DefaultValue fieldInfo) (FieldInfo.Type fieldInfo)\<rparr>
      | (method, False) \<Rightarrow> fieldInfo)"

definition descriptor :: "string \<Rightarrow> Field \<Rightarrow> FieldInfo" where
  "descriptor name field = with_flag_method (fst (parseField name field))"

definition exported_names :: "Field \<Rightarrow> string list" where
  "exported_names field = filter IsExported (Names field)"

definition descriptors :: "Field \<Rightarrow> FieldInfo list" where
  "descriptors field = map (\<lambda>name. descriptor name field) (exported_names field)"

definition rejected :: "Field \<Rightarrow> bool" where
  "rejected field = (exported_names field \<noteq> [] \<and> snd (parseType (Field.Type field)) \<noteq> None)"

text \<open>
  The struct declarations \<open>ParseFile\<close> selects, in source order: the specs of struct type
  in the \<open>type\<close> declarations whose documentation has the annotation. \<open>collect\<close> is
  the loop of \<open>ParseFile\<close> over them.
\<close>

fun struct_specs :: "Spec list \<Rightarrow> (string \<times> Field list) list" where
  "struct_specs [] = []"
| "struct_specs (TypeSpec specDoc name (StructType structType) # specs) =
     (name, structType) # struct_specs specs"
| "struct_specs (spec # specs) = struct_specs specs"

fun annotated_structs :: "Decl list \<Rightarrow> (string \<times> Field list) list" where
  "annotated_structs [] = []"
| "annotated_structs (GenDecl doc tok specs # decls) =
     (if tok = token_TYPE \<and> hasAnnotation doc then struct_specs specs else []) @
     annotated_structs decls"
| "annotated_structs (decl # decls) = annotated_structs decls"

definition struct_rejected :: "string \<times> Field list \<Rightarrow> bool" where
  "struct_rejected s = list_ex rejected (snd s)"

fun collect ::
  "string \<Rightarrow> (string \<times> Field list) list \<Rightarrow> StructInfo list \<Rightarrow> StructInfo list \<times> error option" where
  "collect pkg [] structs = (structs, None)"
| "collect pkg ((name, structType) # rest) structs =
     (case parseStruct name structType pkg of
        (structInfo, Some err) \<Rightarrow> ([], Some (FailedParseStruct name err))
      | (structInfo, None) \<Rightarrow> collect pkg rest (structs @ [structInfo]))"


section \<open>The command\<close>

text \<open>
  The part of \<open>runFlagsGen\<close> from the call of the parser on. The generator and the file
  system are parameters: \<open>GenerateFlags\<close> is the method of the generator package and
  \<open>WriteFile\<close> writes the output file.
\<close>

fun generateAll ::
  "(StructInfo \<Rightarrow> string \<times> error option) \<Rightarrow> StructInfo list \<Rightarrow> string list \<Rightarrow>
   string list \<times> error option" where
  "generateAll GenerateFlags [] allGenerated = (allGenerated, None)"
| "generateAll GenerateFlags (structInfo # structs) allGenerated =
     (case GenerateFlags structInfo of
        (generated, Some err) \<Rightarrow>
          (allGenerated, Some (FailedGenerate (StructInfo.Name structInfo) err))
      | (generated, None) \<Rightarrow> generateAll GenerateFlags structs (allGenerated @ [generated]))"

definition runFlagsGen ::
  "string \<Rightarrow> error + File \<Rightarrow> (StructInfo \<Rightarrow> string \<times> error option) \<Rightarrow>
   (string \<Rightarrow> error option) \<Rightarrow> error option" where
  "runFlagsGen inputFile src GenerateFlags WriteFile =
     (case ParseFile inputFile src of
        (structs, Some err) \<Rightarrow> Some (FailedParseInput err)
      | (structs, None) \<Rightarrow>
          if length structs = 0 then Some (NoStructsFound inputFile)
          else (case generateAll GenerateFlags structs [] of
                  (allGenerated, Some err) \<Rightarrow> Some err
                | (allGenerated, None) \<Rightarrow>
                    (case WriteFile (Join allGenerated [CHR 0x0A, CHR 0x0A]) of
                       Some err \<Rightarrow> Some (FailedWrite err)
                     | None \<Rightarrow> None)))"

section \<open>Source files used as examples\<close>

text \<open>
  The file of \<open>TestParser_ParseFile\<close>: the annotated struct \<open>ServerConfig\<close> and the struct
  \<open>IgnoredConfig\<close> without annotation. The test gives \<open>Debug\<close> the tag \<open>json:"debug"\<close>; the
  scenario of the specification gives it no default and names no tag, so the tag of
  \<open>Debug\<close> is a parameter.
\<close>

definition ServerConfig :: "string option \<Rightarrow> Field list" where
  \<open>ServerConfig debugTag =
    [Field (Some [''// Host is the server hostname'']) [''Host''] (Ident ''string'')
       (Some ''`json:"host" default:"localhost"`'') None,
     Field (Some [''// Port is the server port'']) [''Port''] (Ident ''int'')
       (Some ''`json:"port" default:"8080"`'') None,
     Field (Some [''// Enable debug mode'']) [''Debug''] (Ident ''bool'') debugTag None,
     Field (Some [''// Tags for filtering'']) [''Tags''] (ArrayType None (Ident ''string''))
       (Some ''`json:"tags" default:"web,api"`'') None,
     Field (Some [''// unexported field should be ignored'']) [''secret''] (Ident ''string'')
       (Some ''`json:"secret"`'') None]\<close>

definition testContent :: "string option \<Rightarrow> File" where
  \<open>testContent debugTag =
    \<lparr>File.Name = ''main'',
     Decls =
       [GenDecl (Some [''// +flags-gen'', ''// ServerConfig defines server configuration''])
          token_TYPE [TypeSpec None ''ServerConfig'' (StructType (ServerConfig debugTag))],
        GenDecl (Some [''// Regular struct without annotation - should be ignored''])
          token_TYPE
          [TypeSpec None ''IgnoredConfig''
             (StructType [Field None [''Value''] (Ident ''string'')
                            (Some ''`json:"value"`'') None])]]\<rparr>\<close>

text \<open>
  A well-formed file with no annotated struct: an import, a struct without the
  annotation, an annotated type that is not a struct, and a function.
\<close>

definition ignoredOnly :: File where
  \<open>ignoredOnly =
    \<lparr>File.Name = ''main'',
     Decls =
       [GenDecl None token_IMPORT [ImportSpec],
        GenDecl (Some [''// Regular struct without annotation - should be ignored''])
          token_TYPE
          [TypeSpec None ''IgnoredConfig''
             (StructType [Field None [''Value''] (Ident ''string'')
                            (Some ''`json:"value"`'') None])],
        GenDecl (Some [''// +flags-gen'']) token_TYPE
          [TypeSpec None ''Level'' (Ident ''int'')],
        FuncDecl]\<rparr>\<close>






text \<open>
  The duration field of the README (\<open>CacheTimeout time.Duration\<close>, whose default there is
  \<open>5m\<close>) and a field \<open>Size\<close> of a given type, each with a given default.
\<close>

definition cacheTimeout :: "string \<Rightarrow> Field" where
  \<open>cacheTimeout raw =
    Field (Some [''// Duration fields support time string defaults'']) [''CacheTimeout'']
      (SelectorExpr (Ident ''time'') ''Duration'')
      (Some (''`json:"cacheTimeout" default:"'' @ raw @ ''"`'')) None\<close>

definition sizeField :: "string \<Rightarrow> string \<Rightarrow> Field" where
  \<open>sizeField fieldType raw =
    Field None [''Size''] (Ident fieldType) (Some (''`default:"'' @ raw @ ''"`'')) None\<close>

section \<open>Evaluation\<close>

text \<open>The definitions to unfold when a concrete input is evaluated by the simplifier.\<close>

lemmas eval_defs = ParseFile_def parseStruct_def parseField_def
  hasAnnotation_def HasPrefix_def HasSuffix_def TrimPrefix_def TrimSuffix_def Trim_def TrimSpace_def
  isSpace_def IsExported_def isUpper_def isLower_def upper_letters_def lower_letters_def
  extractJSONTag_def extractDefaultFromTag_def tag_match_def dquote_def parseDefaultValue_def
  parseFieldComment_def getZeroValue_def quoted_def formatDefaultValueCode_def GetFlagMethod_def
  SupportedTypes_def deriveFlagName_def toKebabCase_def ToLower_def toLowerChar_def
  re1_match_def re2_match_def upper_lower_at_def Atoi_def ParseBool_def digit_value_def digits_def
  show_int_def show_nat.simps Let_def

section \<open>Kebab case\<close>











section \<open>The loops of \<open>parseStruct\<close>\<close>

lemma parseField_error:
  "snd (parseField name field) = map_option (FailedParseType name) (snd (parseType (Field.Type field)))"
  by (auto simp: parseField_def Let_def split: prod.splits option.splits)

lemma parseNames_resolved:
  assumes "snd (parseType (Field.Type field)) = None"
  shows "\<exists>imps'. parseNames field names infos imps =
           ((infos @ map (\<lambda>name. descriptor name field) (filter IsExported names), imps'), None)"
proof (induction names arbitrary: infos imps)
  case Nil
  then show ?case by simp
next
  case (Cons n names)
  show ?case
  proof (cases "IsExported n")
    case False
    then show ?thesis using Cons.IH by simp
  next
    case True
    obtain fi where fi: "parseField n field = (fi, None)"
      using parseField_error [of n field] assms by (cases "parseField n field") auto
    then have d: "descriptor n field = with_flag_method fi"
      by (simp add: descriptor_def)
    obtain imps' where
      "parseNames field (n # names) infos imps =
         parseNames field names (infos @ [with_flag_method fi]) imps'"
      using True fi by (auto simp: with_flag_method_def Let_def split: prod.splits bool.splits)
    then show ?thesis using Cons.IH [of "infos @ [with_flag_method fi]" imps'] True d by auto
  qed
qed

lemma parseNames_unresolved:
  assumes "snd (parseType (Field.Type field)) = Some err"
  shows "parseNames field names infos imps =
           (case filter IsExported names of
              [] \<Rightarrow> ((infos, imps), None)
            | name # _ \<Rightarrow>
                ((infos, imps), Some (FailedParseField name (FailedParseType name err))))"
proof (induction names)
  case Nil
  then show ?case by simp
next
  case (Cons n names)
  show ?case
  proof (cases "IsExported n")
    case False
    then show ?thesis using Cons.IH by simp
  next
    case True
    obtain fi where "parseField n field = (fi, Some (FailedParseType n err))"
      using parseField_error [of n field] assms by (cases "parseField n field") auto
    then show ?thesis using True by simp
  qed
qed

lemma parseFields_accepted:
  assumes "\<forall>field \<in> set fs. \<not> rejected field"
  shows "\<exists>imps'. parseFields fs infos imps =
           ((infos @ concat (map descriptors fs), imps'), None)"
  using assms
proof (induction fs arbitrary: infos imps)
  case Nil
  then show ?case by simp
next
  case (Cons f fs)
  then have nr: "\<not> rejected f" and rest: "\<forall>field \<in> set fs. \<not> rejected field" by auto
  have "\<exists>imps'. parseNames f (Names f) infos imps = ((infos @ descriptors f, imps'), None)"
  proof (cases "snd (parseType (Field.Type f))")
    case None
    then show ?thesis using parseNames_resolved [of f "Names f" infos imps]
      by (simp add: descriptors_def exported_names_def)
  next
    case (Some err)
    with nr have "filter IsExported (Names f) = []" by (simp add: rejected_def exported_names_def)
    then show ?thesis using parseNames_unresolved [OF Some, of "Names f" infos imps]
      by (simp add: descriptors_def exported_names_def)
  qed
  then obtain imps' where
    n: "parseNames f (Names f) infos imps = ((infos @ descriptors f, imps'), None)" by blast
  show ?case
  proof (cases "Names f = []")
    case True
    then have "descriptors f = []" by (simp add: descriptors_def exported_names_def)
    then show ?thesis using True Cons.IH [OF rest, of infos imps] by simp
  next
    case False
    then show ?thesis using n Cons.IH [OF rest, of "infos @ descriptors f" imps'] by simp
  qed
qed

lemma parseFields_rejected:
  assumes "\<forall>field \<in> set pre. \<not> rejected field" and "rejected f"
    and "snd (parseType (Field.Type f)) = Some err"
  shows "snd (parseFields (pre @ f # post) infos imps) =
           Some (FailedParseField (hd (exported_names f)) (FailedParseType (hd (exported_names f)) err))"
  using assms(1)
proof (induction pre arbitrary: infos imps)
  case Nil
  from assms(2) obtain n ns where ns: "filter IsExported (Names f) = n # ns"
    by (cases "filter IsExported (Names f)") (auto simp: rejected_def exported_names_def)
  then have "Names f \<noteq> []" by auto
  then show ?case using parseNames_unresolved [OF assms(3), of "Names f" infos imps] ns
    by (simp add: exported_names_def)
next
  case (Cons g pre)
  then have "\<not> rejected g" by simp
  then obtain imps' where
    "parseFields [g] infos imps = ((infos @ descriptors g, imps'), None)"
    using parseFields_accepted [of "[g]" infos imps] by auto
  then have "parseFields (g # pre @ f # post) infos imps =
               parseFields (pre @ f # post) (infos @ descriptors g) imps' \<or>
             parseFields (g # pre @ f # post) infos imps =
               parseFields (pre @ f # post) infos imps"
    by (auto split: if_splits prod.splits option.splits)
  then show ?case using Cons by auto
qed

section \<open>The loops of \<open>ParseFile\<close>\<close>

lemma parseType_error:
  "snd (parseType t) = Some err \<Longrightarrow> \<exists>k. err = UnsupportedType k"
  by (induction t arbitrary: err rule: parseType.induct) (auto split: prod.splits option.splits)

lemma parseStruct_accepted:
  assumes "\<forall>field \<in> set fs. \<not> rejected field"
  shows "\<exists>imps. parseStruct name fs pkg =
           (\<lparr>StructInfo.Name = name, PackageName = pkg, Fields = concat (map descriptors fs),
             Imports = imps\<rparr>, None)"
proof -
  from parseFields_accepted [OF assms, of "[]" "[]"] obtain imps where
    "parseFields fs [] [] = ((concat (map descriptors fs), imps), None)" by auto
  then show ?thesis by (simp add: parseStruct_def)
qed

lemma snd_parseStruct: "snd (parseStruct name fs pkg) = snd (parseFields fs [] [])"
  by (auto simp: parseStruct_def split: prod.splits option.splits)

lemma parseStruct_rejected:
  assumes "list_ex rejected fs"
  shows "\<exists>pre f post k. fs = pre @ f # post \<and> (\<forall>g \<in> set pre. \<not> rejected g) \<and> rejected f \<and>
           snd (parseType (Field.Type f)) = Some (UnsupportedType k) \<and>
           snd (parseStruct name fs pkg) =
             Some (FailedParseField (hd (exported_names f))
                    (FailedParseType (hd (exported_names f)) (UnsupportedType k)))"
proof -
  from assms have "\<exists>f \<in> set fs. rejected f" by (simp add: list_ex_iff)
  then obtain pre f post where s: "fs = pre @ f # post" "rejected f" "\<forall>g \<in> set pre. \<not> rejected g"
    using split_list_first_prop [of fs rejected] by blast
  from s(2) obtain err where e: "snd (parseType (Field.Type f)) = Some err"
    by (auto simp: rejected_def)
  then obtain k where k: "err = UnsupportedType k" using parseType_error by blast
  from parseFields_rejected [OF s(3) s(2) e, of post "[]" "[]"] s(1)
  have "snd (parseStruct name fs pkg) =
          Some (FailedParseField (hd (exported_names f)) (FailedParseType (hd (exported_names f)) err))"
    by (simp add: snd_parseStruct)
  with s e k show ?thesis by blast
qed

lemma parseStruct_None_iff:
  "snd (parseStruct name fs pkg) = None \<longleftrightarrow> \<not> list_ex rejected fs"
proof
  assume "snd (parseStruct name fs pkg) = None"
  then show "\<not> list_ex rejected fs" using parseStruct_rejected [of fs name pkg] by auto
next
  assume "\<not> list_ex rejected fs"
  then have "\<forall>field \<in> set fs. \<not> rejected field" by (simp add: list_ex_iff)
  from parseStruct_accepted [OF this, of name pkg] show "snd (parseStruct name fs pkg) = None"
    by auto
qed

lemma parseSpecs_collect:
  "parseSpecs doc pkg specs structs =
     (if hasAnnotation doc then collect pkg (struct_specs specs) structs else (structs, None))"
proof (induction specs arbitrary: structs rule: struct_specs.induct)
  case 1
  then show ?case by simp
next
  case (2 specDoc name structType specs)
  then show ?case by (auto split: prod.splits option.splits)
qed simp_all

lemma collect_append:
  "collect pkg (xs @ ys) structs =
     (case collect pkg xs structs of
        (structs', Some err) \<Rightarrow> ([], Some err)
      | (structs', None) \<Rightarrow> collect pkg ys structs')"
proof (induction xs arbitrary: structs)
  case Nil
  then show ?case by simp
next
  case (Cons x xs)
  obtain name structType where x: "x = (name, structType)" by (cases x)
  show ?case using Cons.IH x by (auto split: prod.splits option.splits)
qed

lemma collect_error_nil: "collect pkg xs structs = (r, Some err) \<Longrightarrow> r = []"
proof (induction xs arbitrary: structs)
  case Nil
  then show ?case by simp
next
  case (Cons x xs)
  obtain name structType where x: "x = (name, structType)" by (cases x)
  show ?case using Cons x by (auto split: prod.splits option.splits)
qed

lemma parseDecls_collect:
  "parseDecls pkg decls structs = collect pkg (annotated_structs decls) structs"
proof (induction decls arbitrary: structs rule: annotated_structs.induct)
  case 1
  then show ?case by simp
next
  case (2 doc tok specs decls)
  have IH: "parseDecls pkg decls s = collect pkg (annotated_structs decls) s" for s
    by (rule 2)
  show ?case
  proof (cases "tok = token_TYPE")
    case False
    then show ?thesis using IH by (cases tok) simp_all
  next
    case True
    show ?thesis
    proof (cases "collect pkg (struct_specs specs) structs")
      case (Pair r e)
      then show ?thesis using True IH
        by (cases e) (auto simp: parseSpecs_collect collect_append dest: collect_error_nil)
    qed
  qed
qed simp_all

lemma collect_accepted:
  assumes "\<forall>s \<in> set xs. \<not> struct_rejected s"
  shows "collect pkg xs structs =
           (structs @ map (\<lambda>(name, fs). fst (parseStruct name fs pkg)) xs, None)"
  using assms
proof (induction xs arbitrary: structs)
  case Nil
  then show ?case by simp
next
  case (Cons x xs)
  obtain name fs where x: "x = (name, fs)" by (cases x)
  with Cons.prems have "snd (parseStruct name fs pkg) = None"
    by (simp add: parseStruct_None_iff struct_rejected_def)
  then show ?case using Cons x by (auto split: prod.splits option.splits)
qed

lemma collect_rejected:
  assumes "\<forall>s \<in> set pre. \<not> struct_rejected s"
    and "snd (parseStruct name fs pkg) = Some err"
  shows "collect pkg (pre @ (name, fs) # post) structs = ([], Some (FailedParseStruct name err))"
proof -
  obtain structInfo where "parseStruct name fs pkg = (structInfo, Some err)"
    using assms(2) by (cases "parseStruct name fs pkg") auto
  then have "collect pkg ((name, fs) # post) structs' = ([], Some (FailedParseStruct name err))"
    for structs'
    by simp
  then show ?thesis
    by (simp only: collect_append collect_accepted [OF assms(1)] prod.case option.case)
qed

section \<open>Field selection\<close>

lemma parseType_error_empty: "parseType t = (x, Some err) \<Longrightarrow> x = []"
  by (cases t) (auto split: prod.splits option.splits)

lemma descriptor_fields:
  "FieldInfo.Name (descriptor name field) = name"
  "FieldInfo.Type (descriptor name field) = fst (parseType (Field.Type field))"
  "snd (parseType (Field.Type field)) = None \<Longrightarrow>
     Description (descriptor name field) = parseFieldComment (Comment field) (Doc field)"
  "JSONTag (descriptor name field) = JSONTag (descriptor name' field)"
  "DefaultValue (descriptor name field) = DefaultValue (descriptor name' field)"
  "DefaultValueCode (descriptor name field) = DefaultValueCode (descriptor name' field)"
  "FlagMethod (descriptor name field) = FlagMethod (descriptor name' field)"
  "FlagName (descriptor name field) =
     (if snd (parseType (Field.Type field)) = None
      then deriveFlagName name (JSONTag (descriptor name field)) else [])"
  by (auto simp: descriptor_def with_flag_method_def parseField_def Let_def
           dest: parseType_error_empty split: prod.splits option.splits bool.splits)

lemma concat_descriptors_names:
  "map FieldInfo.Name (concat (map descriptors fs)) = filter IsExported (concat (map Names fs))"
  by (induction fs)
     (simp_all add: descriptors_def exported_names_def descriptor_fields(1) comp_def)

lemma parseStruct_names:
  assumes "snd (parseStruct name fs pkg) = None"
  shows "map FieldInfo.Name (Fields (fst (parseStruct name fs pkg))) =
           filter IsExported (concat (map Names fs))"
    and "StructInfo.Name (fst (parseStruct name fs pkg)) = name"
proof -
  from assms have "\<forall>field \<in> set fs. \<not> rejected field"
    by (simp add: parseStruct_None_iff list_ex_iff)
  from parseStruct_accepted [OF this, of name pkg]
  show "map FieldInfo.Name (Fields (fst (parseStruct name fs pkg))) =
           filter IsExported (concat (map Names fs))"
    and "StructInfo.Name (fst (parseStruct name fs pkg)) = name"
    by (auto simp: concat_descriptors_names)
qed

lemma ParseFile_collect:
  "ParseFile filename (Inr file) = collect (File.Name file) (annotated_structs (Decls file)) []"
  by (simp add: ParseFile_def parseDecls_collect)

lemma ParseFile_accepted:
  assumes "\<forall>s \<in> set (annotated_structs (Decls file)). \<not> struct_rejected s"
  shows "ParseFile filename (Inr file) =
           (map (\<lambda>(name, fs). fst (parseStruct name fs (File.Name file)))
              (annotated_structs (Decls file)), None)"
  by (simp add: ParseFile_collect collect_accepted [OF assms])

lemma ParseFile_rejected:
  assumes "\<exists>s \<in> set (annotated_structs (Decls file)). struct_rejected s"
  shows "\<exists>pre name fs post err.
           annotated_structs (Decls file) = pre @ (name, fs) # post \<and>
           (\<forall>s \<in> set pre. \<not> struct_rejected s) \<and> list_ex rejected fs \<and>
           snd (parseStruct name fs (File.Name file)) = Some err \<and>
           ParseFile filename (Inr file) = ([], Some (FailedParseStruct name err))"
proof -
  from assms obtain pre s post where
    s: "annotated_structs (Decls file) = pre @ s # post" "struct_rejected s"
       "\<forall>s \<in> set pre. \<not> struct_rejected s"
    using split_list_first_prop [of "annotated_structs (Decls file)" struct_rejected] by blast
  obtain name fs where nf: "s = (name, fs)" by (cases s)
  with s(2) have r: "list_ex rejected fs" by (simp add: struct_rejected_def)
  then obtain err where e: "snd (parseStruct name fs (File.Name file)) = Some err"
    using parseStruct_None_iff [of name fs "File.Name file"] by auto
  from collect_rejected [OF s(3) e, of post "[]"] s(1) nf
  have "ParseFile filename (Inr file) = ([], Some (FailedParseStruct name err))"
    by (simp add: ParseFile_collect)
  with s nf r e show ?thesis by blast
qed

lemma ParseFile_None_accepted:
  assumes "snd (ParseFile filename (Inr file)) = None"
  shows "\<forall>s \<in> set (annotated_structs (Decls file)). \<not> struct_rejected s"
  using assms ParseFile_rejected [of "file" "filename"] by fastforce



section \<open>Annotation gating\<close>

lemma struct_specs_iff:
  "(name, fs) \<in> set (struct_specs specs) \<longleftrightarrow>
   (\<exists>specDoc. TypeSpec specDoc name (StructType fs) \<in> set specs)"
  by (induction specs rule: struct_specs.induct) auto

lemma annotated_structs_iff:
  "(name, fs) \<in> set (annotated_structs decls) \<longleftrightarrow>
   (\<exists>doc specs specDoc. GenDecl doc token_TYPE specs \<in> set decls \<and> hasAnnotation doc \<and>
      TypeSpec specDoc name (StructType fs) \<in> set specs)"
  by (induction decls rule: annotated_structs.induct) (auto simp: struct_specs_iff)

lemma HasPrefix_iff: "HasPrefix s p \<longleftrightarrow> (\<exists>post. s = p @ post)"
proof
  assume "HasPrefix s p"
  then have "s = p @ drop (length p) s"
    by (metis HasPrefix_def append_take_drop_id)
  then show "\<exists>post. s = p @ post" ..
next
  assume "\<exists>post. s = p @ post"
  then show "HasPrefix s p" by (auto simp: HasPrefix_def)
qed

lemma Contains_iff: "Contains s sub \<longleftrightarrow> (\<exists>pre post. s = pre @ sub @ post)"
proof (induction s)
  case Nil
  then show ?case by auto
next
  case (Cons c cs)
  show ?case
  proof
    assume "Contains (c # cs) sub"
    then consider "HasPrefix (c # cs) sub" | "Contains cs sub" by auto
    then show "\<exists>pre post. c # cs = pre @ sub @ post"
    proof cases
      case 1
      then obtain post where "c # cs = [] @ sub @ post" by (auto simp: HasPrefix_iff)
      then show ?thesis by blast
    next
      case 2
      then obtain pre post where "cs = pre @ sub @ post" using Cons.IH by blast
      then have "c # cs = (c # pre) @ sub @ post" by simp
      then show ?thesis by blast
    qed
  next
    assume "\<exists>pre post. c # cs = pre @ sub @ post"
    then obtain pre post where p: "c # cs = pre @ sub @ post" by blast
    show "Contains (c # cs) sub"
    proof (cases pre)
      case Nil
      with p have "HasPrefix (c # cs) sub" by (auto simp: HasPrefix_iff)
      then show ?thesis by simp
    next
      case (Cons a pre')
      with p have "cs = pre' @ sub @ post" by simp
      then have "Contains cs sub" using Cons.IH by blast
      then show ?thesis by simp
    qed
  qed
qed

lemma hasAnnotation_iff:
  "hasAnnotation doc \<longleftrightarrow>
   (\<exists>comments text pre post. doc = Some comments \<and> text \<in> set comments \<and>
      text = pre @ ''+flags-gen'' @ post)"
  by (cases doc) (auto simp: hasAnnotation_def list_ex_iff Contains_iff)

lemma ParseFile_struct_names:
  assumes "snd (ParseFile filename (Inr file)) = None"
  shows "map StructInfo.Name (fst (ParseFile filename (Inr file))) =
           map fst (annotated_structs (Decls file))"
proof -
  from assms have acc: "\<forall>s \<in> set (annotated_structs (Decls file)). \<not> struct_rejected s"
    by (rule ParseFile_None_accepted)
  have "StructInfo.Name (fst (parseStruct n fs (File.Name file))) = n"
    if "(n, fs) \<in> set (annotated_structs (Decls file))" for n fs
    using that acc parseStruct_names(2) [of n fs "File.Name file"]
    by (auto simp: struct_rejected_def parseStruct_None_iff)
  then show ?thesis by (auto simp: ParseFile_accepted [OF acc])
qed

lemma ParseFile_error_nil:
  "snd (ParseFile filename src) \<noteq> None \<Longrightarrow> fst (ParseFile filename src) = []"
proof (cases src)
  case (Inl err)
  then show ?thesis by (simp add: ParseFile_def)
next
  case (Inr f)
  assume "snd (ParseFile filename src) \<noteq> None"
  then obtain r err where "collect (File.Name f) (annotated_structs (Decls f)) [] = (r, Some err)"
    using Inr by (cases "ParseFile filename src") (auto simp: ParseFile_collect)
  then show ?thesis using Inr collect_error_nil by (fastforce simp: ParseFile_collect)
qed

text \<open>
  C3, as amended. When \<open>ParseFile\<close> succeeds, the descriptors it returns are, in source
  order, those of \<open>annotated_structs\<close>; when it fails it returns no descriptor.
  \<open>annotated_structs\<close> holds exactly the specs of struct type of the \<open>type\<close> declarations
  whose documentation (\<open>GenDecl.Doc\<close>) has the annotation, and a documentation block has
  the annotation exactly when one of its comments contains the text \<open>+flags-gen\<close>. So a
  declaration whose documentation lacks the marker yields no descriptor whatever its
  shape, and a type that is not a struct yields none even when marked.
\<close>

theorem annotation_gating:
  "(snd (ParseFile filename (Inr file)) = None \<longrightarrow>
      map StructInfo.Name (fst (ParseFile filename (Inr file))) =
        map fst (annotated_structs (Decls file))) \<and>
   (snd (ParseFile filename (Inr file)) \<noteq> None \<longrightarrow> fst (ParseFile filename (Inr file)) = []) \<and>
   ((name, fs) \<in> set (annotated_structs (Decls file)) \<longleftrightarrow>
      (\<exists>doc specs specDoc. GenDecl doc token_TYPE specs \<in> set (Decls file) \<and>
         hasAnnotation doc \<and> TypeSpec specDoc name (StructType fs) \<in> set specs)) \<and>
   (hasAnnotation doc \<longleftrightarrow>
      (\<exists>comments text pre post. doc = Some comments \<and> text \<in> set comments \<and>
         text = pre @ ''+flags-gen'' @ post))"
  using ParseFile_struct_names [of filename "file"] ParseFile_error_nil [of filename "Inr file"]
    annotated_structs_iff [of name fs "Decls file"] hasAnnotation_iff [of doc]
  by blast

text \<open>
  The file of the parser's test yields the descriptor of \<open>ServerConfig\<close> and none for
  \<open>IgnoredConfig\<close>; a file with an annotated type that is not a struct yields none.
\<close>

theorem annotation_gating_witness:
  "snd (ParseFile ''test.go'' (Inr (testContent None))) = None \<and>
   map StructInfo.Name (fst (ParseFile ''test.go'' (Inr (testContent None)))) = [''ServerConfig''] \<and>
   snd (ParseFile ''test.go'' (Inr ignoredOnly)) = None \<and>
   map StructInfo.Name (fst (ParseFile ''test.go'' (Inr ignoredOnly))) = []"
proof -
  have h1: "snd (ParseFile ''test.go'' (Inr (testContent None))) = None"
    by (simp add: testContent_def ServerConfig_def eval_defs)
  have h2: "snd (ParseFile ''test.go'' (Inr ignoredOnly)) = None"
    by (simp add: ignoredOnly_def eval_defs)
  have a1: "map fst (annotated_structs (Decls (testContent None))) = [''ServerConfig'']"
    by (simp add: testContent_def eval_defs)
  have a2: "map fst (annotated_structs (Decls ignoredOnly)) = []"
    by (simp add: ignoredOnly_def eval_defs)
  from annotation_gating [of "''test.go''" "testContent None"]
    annotation_gating [of "''test.go''" ignoredOnly] h1 h2 a1 a2
  show ?thesis by simp
qed

text \<open>
  The claim as stated fails in two ways. In \<open>type ( \<dots> )\<close> the comment immediately before
  the struct \<open>A\<close> is \<open>TypeSpec.Doc\<close>, which \<open>ParseFile\<close> does not read: \<open>A\<close> has the marker in
  its immediately preceding documentation and yields no descriptor. And the marked struct
  \<open>B\<close> yields no descriptor because its field \<open>P *int\<close> fails the whole file.
\<close>

theorem annotation_gating_counterexample:
  \<open>hasAnnotation (Some [''// +flags-gen'']) \<and>
   ParseFile ''a.go''
     (Inr \<lparr>File.Name = ''main'',
           Decls = [GenDecl None token_TYPE
                      [TypeSpec (Some [''// +flags-gen'']) ''A''
                         (StructType [Field None [''X''] (Ident ''int'') None None])]]\<rparr>) =
     ([], None) \<and>
   ParseFile ''b.go''
     (Inr \<lparr>File.Name = ''main'',
           Decls = [GenDecl (Some [''// +flags-gen'']) token_TYPE
                      [TypeSpec None ''B''
                         (StructType [Field None [''P''] (StarExpr (Ident ''int'')) None None])]]\<rparr>) =
     ([], Some (FailedParseStruct ''B'' (FailedParseField ''P''
                  (FailedParseType ''P'' (UnsupportedType ''*ast.StarExpr'')))))\<close>
  by (simp add: eval_defs)

section \<open>Files without annotated structs, and unsupported types\<close>



text \<open>
  C9. For a well-formed source file (\<open>go/parser\<close> returns its tree) with no annotated
  struct, \<open>ParseFile\<close> succeeds and returns the empty list, not an error; it is
  \<open>runFlagsGen\<close>, the command, that turns the empty result into the error
  "no structs with +flags-gen annotation found".
\<close>

theorem no_annotated_struct:
  assumes "annotated_structs (Decls file) = []"
  shows "ParseFile filename (Inr file) = ([], None) \<and>
         runFlagsGen filename (Inr file) GenerateFlags WriteFile = Some (NoStructsFound filename)"
proof -
  have "ParseFile filename (Inr file) = ([], None)"
    using assms by (simp add: ParseFile_collect)
  then show ?thesis by (simp add: runFlagsGen_def)
qed

text \<open>A file with an unannotated struct and an annotated type that is not a struct.\<close>

theorem no_annotated_struct_witness:
  "annotated_structs (Decls ignoredOnly) = [] \<and>
   ParseFile ''types.go'' (Inr ignoredOnly) = ([], None) \<and>
   runFlagsGen ''types.go'' (Inr ignoredOnly) (\<lambda>structInfo. ([], None)) (\<lambda>output. None) =
     Some (NoStructsFound ''types.go'')"
proof -
  have h: "annotated_structs (Decls ignoredOnly) = []"
    by (simp add: ignoredOnly_def eval_defs)
  from no_annotated_struct [OF h] h show ?thesis by simp
qed



section \<open>Field declarations with several names\<close>



section \<open>Default values\<close>

lemma parseField_default:
  assumes "parseType (Field.Type field) = (fieldType, None)" and "Tag field = Some tag"
    and "FindStringSubmatch ''default'' (Trim tag ''`'') = [m, raw]"
  shows "snd (parseField name field) = None"
    and "DefaultValue (fst (parseField name field)) = parseDefaultValue raw fieldType"
  using assms by (simp_all add: parseField_def extractDefaultFromTag_def Let_def)

lemma Split_nonempty: "Split s sep \<noteq> []"
  by (induction s) (auto split: list.splits)

lemma Join_Cons_Cons: "Join ((x # p) # ps) sep = x # Join (p # ps) sep"
  by (cases ps) simp_all

lemma Join_Split: "Join (Split s sep) [sep] = s"
proof (induction s)
  case Nil
  then show ?case by simp
next
  case (Cons x xs)
  obtain p ps where s: "Split xs sep = p # ps"
    using Split_nonempty [of xs sep] by (cases "Split xs sep") auto
  show ?case
  proof (cases "x = sep")
    case True
    then show ?thesis using Cons s by simp
  next
    case False
    then show ?thesis using Cons s by (simp add: Join_Cons_Cons)
  qed
qed

lemma Split_pieces: "list_all (\<lambda>p. sep \<notin> set p) (Split s sep)"
  by (induction s) (auto split: list.splits)

lemma Split_length: "length (Split s sep) = Suc (count_list s sep)"
  by (induction s) (auto split: list.splits)

text \<open>
  C8. For a string-list field with a \<open>default\<close> tag, the default value is the
  comma-split of the raw string, in order, and the empty raw string gives the empty list,
  not the list of one empty string. The split is the one sequence of comma-free pieces
  that joined by commas gives the raw string back; it has one piece more than the raw
  string has commas.
\<close>

theorem string_list_default:
  "parseDefaultValue raw ''[]string'' =
     StringSlice (if raw = [] then [] else Split raw (CHR '','')) \<and>
   Join (Split raw (CHR '','')) '','' = raw \<and>
   list_all (\<lambda>piece. CHR '','' \<notin> set piece) (Split raw (CHR '','')) \<and>
   length (Split raw (CHR '','')) = Suc (count_list raw (CHR '','')) \<and>
   parseDefaultValue ''web,api'' ''[]string'' = StringSlice [''web'', ''api''] \<and>
   parseDefaultValue [] ''[]string'' = StringSlice [] \<and>
   parseDefaultValue [] ''[]string'' \<noteq> StringSlice [[]] \<and>
   (parseType (Field.Type field) = (''[]string'', None) \<and> Tag field = Some tag \<and>
    FindStringSubmatch ''default'' (Trim tag ''`'') = [m, raw] \<longrightarrow>
      snd (parseField name field) = None \<and>
      DefaultValue (fst (parseField name field)) =
        StringSlice (if raw = [] then [] else Split raw (CHR '','')))"
proof -
  have 1: "parseDefaultValue raw ''[]string'' =
             StringSlice (if raw = [] then [] else Split raw (CHR '',''))" for raw
    by (simp add: parseDefaultValue_def)
  have 2: "parseDefaultValue ''web,api'' ''[]string'' = StringSlice [''web'', ''api'']"
    by (simp add: parseDefaultValue_def)
  show ?thesis
    using 1 2 Join_Split [of raw "CHR '',''"] Split_pieces [of "CHR '',''" raw]
      Split_length [of raw "CHR '',''"]
      parseField_default [of field "''[]string''" tag m raw name]
    by simp
qed

text \<open>The field \<open>Tags\<close> of the parser's test.\<close>

theorem string_list_default_witness:
  \<open>parseType (Field.Type (ServerConfig None ! 3)) = (''[]string'', None) \<and>
   Tag (ServerConfig None ! 3) = Some ''`json:"tags" default:"web,api"`'' \<and>
   FindStringSubmatch ''default'' (Trim ''`json:"tags" default:"web,api"`'' ''`'') =
     [''default:"web,api"'', ''web,api''] \<and>
   snd (parseField ''Tags'' (ServerConfig None ! 3)) = None \<and>
   DefaultValue (fst (parseField ''Tags'' (ServerConfig None ! 3))) =
     StringSlice [''web'', ''api'']\<close>
proof -
  have h1: "parseType (Field.Type (ServerConfig None ! 3)) = (''[]string'', None)"
    by (simp add: ServerConfig_def)
  have h2: \<open>Tag (ServerConfig None ! 3) = Some ''`json:"tags" default:"web,api"`''\<close>
    by (simp add: ServerConfig_def)
  have h3: \<open>FindStringSubmatch ''default'' (Trim ''`json:"tags" default:"web,api"`'' ''`'') =
     [''default:"web,api"'', ''web,api'']\<close>
    by (simp add: eval_defs)
  from string_list_default [of "''web,api''" "ServerConfig None ! 3"
      \<open>''`json:"tags" default:"web,api"`''\<close> \<open>''default:"web,api"''\<close> "''Tags''"] h1 h2 h3
  show ?thesis by simp
qed

lemma digit_value_digits: "n < 10 \<Longrightarrow> digit_value (digits ! n) = Some n"
proof -
  assume "n < 10"
  then have "n \<in> {0, 1, 2, 3, 4, 5, 6, 7, 8, 9}" by auto
  then show ?thesis
    by (auto simp: digit_value_def digits_def)
qed

lemma parse_digits_append:
  "parse_digits (xs @ ys) n =
     (case parse_digits xs n of None \<Rightarrow> None | Some k \<Rightarrow> parse_digits ys k)"
  by (induction xs arbitrary: n) (auto split: option.splits)

lemma parse_digits_show_nat: "parse_digits (show_nat n) 0 = Some n"
proof (induction n rule: show_nat.induct)
  case (1 n)
  show ?case
  proof (cases "n < 10")
    case True
    then have "show_nat n = [digits ! n]"
      by (subst show_nat.simps) simp
    with True show ?thesis by (simp add: digit_value_digits)
  next
    case False
    then have "show_nat n = show_nat (n div 10) @ [digits ! (n mod 10)]"
      by (subst show_nat.simps) simp
    moreover have "parse_digits (show_nat (n div 10)) 0 = Some (n div 10)"
      using False 1 by simp
    ultimately show ?thesis
      by (simp add: parse_digits_append digit_value_digits)
  qed
qed

lemma show_nat_head: "\<exists>c cs. show_nat n = c # cs \<and> c \<in> set digits"
proof (induction n rule: show_nat.induct)
  case (1 n)
  show ?case
  proof (cases "n < 10")
    case True
    then have "n < length digits" by (simp add: digits_def)
    then have "digits ! n \<in> set digits" by (rule nth_mem)
    moreover from True have "show_nat n = [digits ! n]"
      by (subst show_nat.simps) simp
    ultimately show ?thesis by simp
  next
    case False
    then have "show_nat n = show_nat (n div 10) @ [digits ! (n mod 10)]"
      by (subst show_nat.simps) simp
    with False 1 show ?thesis by auto
  qed
qed

lemma Atoi_show_int:
  assumes "- (2 ^ 63) \<le> i" and "i \<le> 2 ^ 63 - 1"
  shows "Atoi (show_int i) = Some i"
proof (cases "i < 0")
  case True
  obtain c cs where s: "show_nat (nat (- i)) = c # cs"
    using show_nat_head by blast
  have "parse_digits (c # cs) 0 = Some (nat (- i))"
    using parse_digits_show_nat [of "nat (- i)"] s by simp
  then show ?thesis
    using True assms s by (simp add: Atoi_def show_int_def Let_def del: parse_digits.simps)
next
  case False
  obtain c cs where s: "show_nat (nat i) = c # cs" "c \<in> set digits"
    using show_nat_head by blast
  then have c: "c \<noteq> CHR ''-''" "c \<noteq> CHR ''+''" by (auto simp: digits_def)
  have "parse_digits (c # cs) 0 = Some (nat i)"
    using parse_digits_show_nat [of "nat i"] s by simp
  then show ?thesis
    using False assms s c by (simp add: Atoi_def show_int_def Let_def del: parse_digits.simps)
qed

lemma Atoi_range: "Atoi s = Some i \<Longrightarrow> - (2 ^ 63) \<le> i \<and> i \<le> 2 ^ 63 - 1"
  by (auto simp: Atoi_def Let_def split: if_splits option.splits)

text \<open>
  C6, as amended. For a field of type \<open>int\<close>, \<open>int32\<close> or \<open>int64\<close> with a \<open>default\<close> tag,
  the raw default is parsed by \<open>strconv.Atoi\<close> as a base-10 integer of the 64-bit range
  and stored as an integer; when that fails the raw string is kept, and no error is
  raised. For a field of type \<open>uint\<close>, \<open>uint32\<close> or \<open>uint64\<close> the raw string is always
  kept, unparsed, also without an error. \<open>Atoi\<close> reads back the decimal text of every
  integer of the range, and returns no integer outside it.
\<close>

theorem integer_default:
  assumes "parseType (Field.Type field) = (fieldType, None)" and "Tag field = Some tag"
    and "FindStringSubmatch ''default'' (Trim tag ''`'') = [m, raw]"
  shows "snd (parseField name field) = None \<and>
         (fieldType \<in> set [''int'', ''int32'', ''int64''] \<longrightarrow>
            DefaultValue (fst (parseField name field)) =
              (case Atoi raw of Some i \<Rightarrow> IntValue i | None \<Rightarrow> StringValue raw)) \<and>
         (fieldType \<in> set [''uint'', ''uint32'', ''uint64''] \<longrightarrow>
            DefaultValue (fst (parseField name field)) = StringValue raw) \<and>
         (- (2 ^ 63) \<le> i \<and> i \<le> 2 ^ 63 - 1 \<longrightarrow> Atoi (show_int i) = Some i) \<and>
         (Atoi raw = Some j \<longrightarrow> - (2 ^ 63) \<le> j \<and> j \<le> 2 ^ 63 - 1)"
proof -
  have "fieldType \<in> set [''uint'', ''uint32'', ''uint64''] \<longrightarrow>
          parseDefaultValue raw fieldType = StringValue raw"
    by (auto simp: parseDefaultValue_def)
  moreover have "fieldType \<in> set [''int'', ''int32'', ''int64''] \<longrightarrow>
          parseDefaultValue raw fieldType =
            (case Atoi raw of Some i \<Rightarrow> IntValue i | None \<Rightarrow> StringValue raw)"
    by (auto simp: parseDefaultValue_def)
  ultimately show ?thesis
    using parseField_default [OF assms, of name] Atoi_show_int [of i] Atoi_range [of raw j]
    by simp
qed

text \<open>An \<open>int32\<close> field with default \<open>-42\<close> and an \<open>int\<close> field with the malformed default \<open>4x2\<close>.\<close>

theorem integer_default_witness:
  \<open>parseType (Field.Type (sizeField ''int32'' ''-42'')) = (''int32'', None) \<and>
   Tag (sizeField ''int32'' ''-42'') = Some ''`default:"-42"`'' \<and>
   FindStringSubmatch ''default'' (Trim ''`default:"-42"`'' ''`'') = [''default:"-42"'', ''-42''] \<and>
   snd (parseField ''Size'' (sizeField ''int32'' ''-42'')) = None \<and>
   DefaultValue (fst (parseField ''Size'' (sizeField ''int32'' ''-42''))) = IntValue (- 42) \<and>
   parseType (Field.Type (sizeField ''int'' ''4x2'')) = (''int'', None) \<and>
   Tag (sizeField ''int'' ''4x2'') = Some ''`default:"4x2"`'' \<and>
   FindStringSubmatch ''default'' (Trim ''`default:"4x2"`'' ''`'') = [''default:"4x2"'', ''4x2''] \<and>
   snd (parseField ''Size'' (sizeField ''int'' ''4x2'')) = None \<and>
   DefaultValue (fst (parseField ''Size'' (sizeField ''int'' ''4x2''))) = StringValue ''4x2''\<close>
proof -
  have a1: "parseType (Field.Type (sizeField ''int32'' ''-42'')) = (''int32'', None)"
    by (simp add: sizeField_def)
  have a2: \<open>Tag (sizeField ''int32'' ''-42'') = Some ''`default:"-42"`''\<close>
    by (simp add: sizeField_def)
  have a3: \<open>FindStringSubmatch ''default'' (Trim ''`default:"-42"`'' ''`'') =
              [''default:"-42"'', ''-42'']\<close>
    by (simp add: eval_defs)
  have a4: "Atoi ''-42'' = Some (- 42)"
    by (simp add: eval_defs)
  have b1: "parseType (Field.Type (sizeField ''int'' ''4x2'')) = (''int'', None)"
    by (simp add: sizeField_def)
  have b2: \<open>Tag (sizeField ''int'' ''4x2'') = Some ''`default:"4x2"`''\<close>
    by (simp add: sizeField_def)
  have b3: \<open>FindStringSubmatch ''default'' (Trim ''`default:"4x2"`'' ''`'') =
              [''default:"4x2"'', ''4x2'']\<close>
    by (simp add: eval_defs)
  have b4: "Atoi ''4x2'' = None"
    by (simp add: eval_defs)
  from integer_default [OF a1 a2 a3, of "''Size''"] integer_default [OF b1 b2 b3, of "''Size''"]
    a1 a2 a3 a4 b1 b2 b3 b4
  show ?thesis by simp
qed

text \<open>
  The claim as stated fails for the unsigned kinds: \<open>uint\<close> is a supported type and \<open>42\<close>
  is a base-10 integer, but the default value of the field is the string.
\<close>

theorem integer_default_counterexample:
  "Atoi ''42'' = Some 42 \<and>
   GetFlagMethod ''uint'' = (''UintVar'', True) \<and>
   snd (parseField ''Size'' (sizeField ''uint'' ''42'')) = None \<and>
   DefaultValue (fst (parseField ''Size'' (sizeField ''uint'' ''42''))) = StringValue ''42'' \<and>
   DefaultValue (fst (parseField ''Size'' (sizeField ''uint'' ''42''))) \<noteq> IntValue 42"
  by (simp add: sizeField_def eval_defs)

text \<open>
  C7. A duration field keeps its raw default string at parse time, and with no default
  its literal is \<open>0\<close>. The literal of a default is the raw string without a trailing
  \<open>s\<close>, followed by \<open>*time.Second\<close>: \<open>30*time.Second\<close> for \<open>30s\<close>. Only the suffix \<open>s\<close> is
  stripped and the constant is always \<open>time.Second\<close>: the default \<open>5m\<close> of the README
  gives \<open>5m*time.Second\<close> and \<open>100ms\<close> gives \<open>100m*time.Second\<close>, neither of them the
  number times the constant of its unit.
\<close>

theorem duration_literal:
  \<open>parseDefaultValue raw ''time.Duration'' = StringValue raw \<and>
   formatDefaultValueCode (StringValue raw) ''time.Duration'' =
     TrimSuffix raw ''s'' @ ''*time.Second'' \<and>
   formatDefaultValueCode Value.Nil ''time.Duration'' = ''0'' \<and>
   map (\<lambda>f. (FieldInfo.Type f, DefaultValue f, DefaultValueCode f))
     (Fields (fst (parseStruct ''Config'' [cacheTimeout ''30s''] ''config''))) =
     [(''time.Duration'', StringValue ''30s'', ''30*time.Second'')] \<and>
   map (\<lambda>f. (FieldInfo.Type f, DefaultValue f, DefaultValueCode f))
     (Fields (fst (parseStruct ''Config'' [cacheTimeout ''5m''] ''config''))) =
     [(''time.Duration'', StringValue ''5m'', ''5m*time.Second'')] \<and>
   map (\<lambda>f. (FieldInfo.Type f, DefaultValue f, DefaultValueCode f))
     (Fields (fst (parseStruct ''Config'' [cacheTimeout ''100ms''] ''config''))) =
     [(''time.Duration'', StringValue ''100ms'', ''100m*time.Second'')]\<close>
proof -
  have "parseDefaultValue raw ''time.Duration'' = StringValue raw"
    by (simp add: parseDefaultValue_def)
  moreover have "formatDefaultValueCode (StringValue raw) ''time.Duration'' =
     TrimSuffix raw ''s'' @ ''*time.Second''"
    by (simp add: formatDefaultValueCode_def)
  moreover have "formatDefaultValueCode Value.Nil ''time.Duration'' = ''0''"
    by (simp add: formatDefaultValueCode_def getZeroValue_def)
  moreover have "map (\<lambda>f. (FieldInfo.Type f, DefaultValue f, DefaultValueCode f))
     (Fields (fst (parseStruct ''Config'' [cacheTimeout ''30s''] ''config''))) =
     [(''time.Duration'', StringValue ''30s'', ''30*time.Second'')]"
    by (simp add: cacheTimeout_def eval_defs)
  moreover have "map (\<lambda>f. (FieldInfo.Type f, DefaultValue f, DefaultValueCode f))
     (Fields (fst (parseStruct ''Config'' [cacheTimeout ''5m''] ''config''))) =
     [(''time.Duration'', StringValue ''5m'', ''5m*time.Second'')]"
    by (simp add: cacheTimeout_def eval_defs)
  moreover have "map (\<lambda>f. (FieldInfo.Type f, DefaultValue f, DefaultValueCode f))
     (Fields (fst (parseStruct ''Config'' [cacheTimeout ''100ms''] ''config''))) =
     [(''time.Duration'', StringValue ''100ms'', ''100m*time.Second'')]"
    by (simp add: cacheTimeout_def eval_defs)
  ultimately show ?thesis by blast
qed

section \<open>The end-to-end scenario\<close>

text \<open>
  C1. For the struct of the end-to-end scenario (\<open>Host string\<close> with external name \<open>host\<close>
  and default \<open>localhost\<close>, \<open>Port int\<close> with \<open>port\<close> and \<open>8080\<close>, \<open>Debug bool\<close> without
  default, \<open>Tags []string\<close> with \<open>tags\<close> and \<open>web,api\<close>, and the unexported \<open>secret string\<close>),
  parsing succeeds with exactly four field descriptors, without \<open>secret\<close>; their flag
  names are \<open>host\<close>, \<open>port\<close>, \<open>debug\<close>, \<open>tags\<close> and their default-value literals are
  \<open>"localhost"\<close>, \<open>8080\<close>, \<open>false\<close> and \<open>[]string{"web", "api"}\<close>. This holds with \<open>Debug\<close>
  untagged and with the tag \<open>json:"debug"\<close> of the parser's test.
\<close>

theorem end_to_end_scenario:
  \<open>snd (ParseFile ''test.go'' (Inr (testContent None))) = None \<and>
   map (\<lambda>structInfo. (StructInfo.Name structInfo,
          map (\<lambda>f. (FieldInfo.Name f, FlagName f, DefaultValue f, DefaultValueCode f))
            (Fields structInfo)))
     (fst (ParseFile ''test.go'' (Inr (testContent None)))) =
     [(''ServerConfig'',
       [(''Host'', ''host'', StringValue ''localhost'', ''"localhost"''),
        (''Port'', ''port'', IntValue 8080, ''8080''),
        (''Debug'', ''debug'', Value.Nil, ''false''),
        (''Tags'', ''tags'', StringSlice [''web'', ''api''], ''[]string{"web", "api"}'')])] \<and>
   snd (ParseFile ''test.go'' (Inr (testContent (Some ''`json:"debug"`'')))) = None \<and>
   map (\<lambda>structInfo. (StructInfo.Name structInfo,
          map (\<lambda>f. (FieldInfo.Name f, FlagName f, DefaultValue f, DefaultValueCode f))
            (Fields structInfo)))
     (fst (ParseFile ''test.go'' (Inr (testContent (Some ''`json:"debug"`''))))) =
     [(''ServerConfig'',
       [(''Host'', ''host'', StringValue ''localhost'', ''"localhost"''),
        (''Port'', ''port'', IntValue 8080, ''8080''),
        (''Debug'', ''debug'', Value.Nil, ''false''),
        (''Tags'', ''tags'', StringSlice [''web'', ''api''], ''[]string{"web", "api"}'')])]\<close>
proof -
  let ?fields = \<open>\<lambda>jsonTag.
         [\<lparr>FieldInfo.Name = ''Host'', Type = ''string'', JSONTag = ''host'',
           FlagName = ''host'', Description = ''Host is the server hostname'',
           DefaultValue = StringValue ''localhost'', DefaultValueCode = ''"localhost"'',
           Required = False, ShortFlag = [], FlagMethod = ''StringVar''\<rparr>,
          \<lparr>FieldInfo.Name = ''Port'', Type = ''int'', JSONTag = ''port'',
           FlagName = ''port'', Description = ''Port is the server port'',
           DefaultValue = IntValue 8080, DefaultValueCode = ''8080'',
           Required = False, ShortFlag = [], FlagMethod = ''IntVar''\<rparr>,
          \<lparr>FieldInfo.Name = ''Debug'', Type = ''bool'', JSONTag = jsonTag,
           FlagName = ''debug'', Description = ''Enable debug mode'',
           DefaultValue = Value.Nil, DefaultValueCode = ''false'',
           Required = False, ShortFlag = [], FlagMethod = ''BoolVar''\<rparr>,
          \<lparr>FieldInfo.Name = ''Tags'', Type = ''[]string'', JSONTag = ''tags'',
           FlagName = ''tags'', Description = ''Tags for filtering'',
           DefaultValue = StringSlice [''web'', ''api''],
           DefaultValueCode = ''[]string{"web", "api"}'',
           Required = False, ShortFlag = [], FlagMethod = ''StringSliceVar''\<rparr>]\<close>
  have plain: \<open>ParseFile ''test.go'' (Inr (testContent None)) =
    ([\<lparr>StructInfo.Name = ''ServerConfig'', PackageName = ''main'', Fields = ?fields [],
       Imports = []\<rparr>], None)\<close>
    by (simp add: testContent_def ServerConfig_def eval_defs)
  have tagged: \<open>ParseFile ''test.go'' (Inr (testContent (Some ''`json:"debug"`''))) =
    ([\<lparr>StructInfo.Name = ''ServerConfig'', PackageName = ''main'', Fields = ?fields ''debug'',
       Imports = []\<rparr>], None)\<close>
    by (simp add: testContent_def ServerConfig_def eval_defs)
  show ?thesis by (simp add: plain tagged)
qed

end
